theory Spec2Isabelle
  imports Complex_Main "HOL-Library.Char_ord"
begin

section \<open>Exceptions of prepare.py as values\<close>

text \<open>
  Every \<^verbatim>\<open>raise\<close> of \<^verbatim>\<open>parse_constraints\<close> and \<^verbatim>\<open>one_dimensional_scan\<close>, and every
  exception of the interpreter or of numpy that the two functions can run into, is a
  constructor. Floating-point numbers are modelled as real numbers.
\<close>

datatype error =
    ModeNotSet
      \<comment> \<open>RuntimeError: Mode ($freeze, $set, $scan) must be set before specifying any constraints\<close>
  | TokenCount string nat nat
      \<comment> \<open>RuntimeError: For this line:<line> Expected <n> tokens but got <m>\<close>
  | AtomNumbersStart
      \<comment> \<open>RuntimeError: Atom numbers must start from 1\<close>
  | AtomIndexTooHigh
      \<comment> \<open>RuntimeError: Constraints refer to higher atom indices than the number of atoms\<close>
  | NotOK
      \<comment> \<open>RuntimeError: Not OK!\<close>
  | ObjsValsLength
      \<comment> \<open>RuntimeError: objs and vals should be the same length\<close>
  | InitFinalLength
      \<comment> \<open>RuntimeError: init and final must have the same length\<close>
  | KeyError string
      \<comment> \<open>a keyword that is not a key of ClassDict\<close>
  | UnboundLocalError string
      \<comment> \<open>a local variable read before any assignment\<close>
  | ValueError string
      \<comment> \<open>float() or int() of a token that is no number; numpy.linspace of a negative count\<close>
  | IndexError
      \<comment> \<open>a list or an array indexed out of range\<close>
  | HelperError
      \<comment> \<open>whatever uncommadash raises on a token it rejects\<close>

fun mapE :: "('a \<Rightarrow> error + 'b) \<Rightarrow> 'a list \<Rightarrow> error + 'b list" where
  "mapE f [] = Inr []"
| "mapE f (x # xs) =
     (case f x of
        Inl e \<Rightarrow> Inl e
      | Inr y \<Rightarrow> (case mapE f xs of Inl e \<Rightarrow> Inl e | Inr ys \<Rightarrow> Inr (y # ys)))"

definition idx :: "'a list \<Rightarrow> nat \<Rightarrow> error + 'a" where
  "idx xs i = (if i < length xs then Inr (xs ! i) else Inl IndexError)"

section \<open>numpy.linspace and one\_dimensional\_scan\<close>

text \<open>
  \<^verbatim>\<open>numpy.linspace(start, stop, num)\<close> with the default \<^verbatim>\<open>endpoint=True\<close>: a negative
  \<^verbatim>\<open>num\<close> raises ValueError; otherwise \<^verbatim>\<open>div = num - 1\<close>, the samples are
  \<^verbatim>\<open>arange(0, num) * step + start\<close> with \<^verbatim>\<open>step = (stop - start) / div\<close> (for
  \<^verbatim>\<open>div = 0\<close> the samples are \<^verbatim>\<open>arange(0, num) * (stop - start) + start\<close>), and for
  \<^verbatim>\<open>num > 1\<close> the last sample is overwritten with \<^verbatim>\<open>stop\<close>.
\<close>

definition linspace :: "real \<Rightarrow> real \<Rightarrow> int \<Rightarrow> error + real list" where
  "linspace start stop num =
     (if num < 0 then Inl (ValueError ''Number of samples must be non-negative'')
      else
        let n = nat num;
            dv = n - 1;
            delta = stop - start;
            y = map (\<lambda>i. (if 0 < dv then real i * (delta / real dv) else real i * delta) + start)
                  [0..<n]
        in Inr (if 1 < n then y[n - 1 := stop] else y))"

text \<open>
  \<^verbatim>\<open>list([list(i) for i in np.array(Answer).T])\<close>: \<^verbatim>\<open>Answer\<close> holds one row per component,
  all of the same length. An empty \<^verbatim>\<open>Answer\<close> is an array of shape (0,), whose transpose
  has no rows.
\<close>

definition np_transpose :: "'a list list \<Rightarrow> 'a list list" where
  "np_transpose Answer =
     (case Answer of
        [] \<Rightarrow> []
      | r # _ \<Rightarrow> map (\<lambda>i. map (\<lambda>row. row ! i) Answer) [0..<length r])"

definition one_dimensional_scan :: "real list \<Rightarrow> real list \<Rightarrow> int \<Rightarrow> error + real list list" where
  "one_dimensional_scan init final steps =
     (if length init \<noteq> length final then Inl InitFinalLength
      else
        (case mapE (\<lambda>j. linspace (init ! j) (final ! j) steps) [0..<length init] of
           Inl e \<Rightarrow> Inl e
         | Inr Answer \<Rightarrow> Inr (np_transpose Answer)))"

section \<open>Python string primitives\<close>

text \<open>
  A \<^typ>\<open>char\<close> stands for a code point below 256. \<^verbatim>\<open>str.strip()\<close> and
  \<^verbatim>\<open>str.split()\<close> without argument treat as whitespace the characters for which
  \<^verbatim>\<open>str.isspace()\<close> holds.
\<close>

definition is_space :: "char \<Rightarrow> bool" where
  "is_space c =
     (c \<in> set [CHR 0x09, CHR 0x0A, CHR 0x0B, CHR 0x0C, CHR 0x0D, CHR 0x1C, CHR 0x1D,
                CHR 0x1E, CHR 0x1F, CHR 0x20, CHR 0x85, CHR 0xA0])"

text \<open>
  \<^verbatim>\<open>str.lower()\<close>: the letters A-Z and the upper-case letters of Latin-1 (code points
  0xC0 to 0xDE without the multiplication sign 0xD7) move up by 32.
\<close>

definition lower_table :: "(char \<times> char) list" where
  "lower_table =
     zip ''ABCDEFGHIJKLMNOPQRSTUVWXYZ'' ''abcdefghijklmnopqrstuvwxyz'' @
     zip [CHR 0xC0, CHR 0xC1, CHR 0xC2, CHR 0xC3, CHR 0xC4, CHR 0xC5, CHR 0xC6, CHR 0xC7,
          CHR 0xC8, CHR 0xC9, CHR 0xCA, CHR 0xCB, CHR 0xCC, CHR 0xCD, CHR 0xCE, CHR 0xCF,
          CHR 0xD0, CHR 0xD1, CHR 0xD2, CHR 0xD3, CHR 0xD4, CHR 0xD5, CHR 0xD6, CHR 0xD8,
          CHR 0xD9, CHR 0xDA, CHR 0xDB, CHR 0xDC, CHR 0xDD, CHR 0xDE]
         [CHR 0xE0, CHR 0xE1, CHR 0xE2, CHR 0xE3, CHR 0xE4, CHR 0xE5, CHR 0xE6, CHR 0xE7,
          CHR 0xE8, CHR 0xE9, CHR 0xEA, CHR 0xEB, CHR 0xEC, CHR 0xED, CHR 0xEE, CHR 0xEF,
          CHR 0xF0, CHR 0xF1, CHR 0xF2, CHR 0xF3, CHR 0xF4, CHR 0xF5, CHR 0xF6, CHR 0xF8,
          CHR 0xF9, CHR 0xFA, CHR 0xFB, CHR 0xFC, CHR 0xFD, CHR 0xFE]"

definition lower_char :: "char \<Rightarrow> char" where
  "lower_char c = (case map_of lower_table c of None \<Rightarrow> c | Some d \<Rightarrow> d)"

definition lower :: "string \<Rightarrow> string" where
  "lower s = map lower_char s"

definition strip :: "string \<Rightarrow> string" where
  "strip s = rev (dropWhile is_space (rev (dropWhile is_space s)))"

text \<open>\<^verbatim>\<open>s.split(sep)\<close> for a separator of one character.\<close>

fun split_sep :: "char \<Rightarrow> string \<Rightarrow> string list" where
  "split_sep sep [] = [[]]"
| "split_sep sep (c # cs) =
     (if c = sep then [] # split_sep sep cs
      else (case split_sep sep cs of
              [] \<Rightarrow> [[c]]
            | w # ws \<Rightarrow> (c # w) # ws))"

text \<open>\<^verbatim>\<open>s.split()\<close>: the maximal runs of non-whitespace characters.\<close>

fun split_acc :: "string \<Rightarrow> string \<Rightarrow> string list" where
  "split_acc cur [] = (if cur = [] then [] else [cur])"
| "split_acc cur (c # cs) =
     (if is_space c then (if cur = [] then split_acc [] cs else cur # split_acc [] cs)
      else split_acc (cur @ [c]) cs)"

definition split_ws :: "string \<Rightarrow> string list" where
  "split_ws s = split_acc [] s"

text \<open>\<^verbatim>\<open>s.startswith(p)\<close> and \<^verbatim>\<open>p in s\<close>.\<close>

fun startswith :: "string \<Rightarrow> string \<Rightarrow> bool" where
  "startswith s [] = True"
| "startswith [] (p # ps) = False"
| "startswith (c # cs) (p # ps) = (c = p \<and> startswith cs ps)"

fun str_in :: "string \<Rightarrow> string \<Rightarrow> bool" where
  "str_in p [] = (p = [])"
| "str_in p (c # cs) = (startswith (c # cs) p \<or> str_in p cs)"

text \<open>\<^verbatim>\<open>s.replace(old, '')\<close>: the occurrences of \<^verbatim>\<open>old\<close> are removed from left to right.\<close>

function remove_all :: "string \<Rightarrow> string \<Rightarrow> string" where
  "remove_all old [] = []"
| "remove_all old (c # cs) =
     (if old \<noteq> [] \<and> startswith (c # cs) old
      then remove_all old (drop (length old) (c # cs))
      else c # remove_all old cs)"
  by pat_completeness auto
termination
  by (relation "measure (\<lambda>(old, s). length s)") (auto simp: neq_Nil_conv)

text \<open>\<^verbatim>\<open>''.join(sorted(key))\<close>: the characters in the order of their code points.\<close>

definition sorted_str :: "string \<Rightarrow> string" where
  "sorted_str key = sort key"

section \<open>Coordinate objects, the molecule and the imported helpers\<close>

text \<open>
  The twelve primitive-coordinate classes that prepare.py imports from the module
  \<^verbatim>\<open>internal\<close>. A coordinate object is the class together with the arguments of the
  constructor call, one constructor for each shape of call in \<^verbatim>\<open>parse_constraints\<close>.
\<close>

datatype coord_class =
    Distance | Angle | Dihedral
  | CartesianX | CartesianY | CartesianZ
  | TranslationX | TranslationY | TranslationZ
  | RotationA | RotationB | RotationC

datatype prim =
    Bonded coord_class "int list"
      \<comment> \<open>\<^verbatim>\<open>classes[0](*atoms)\<close>\<close>
  | AtomPrim coord_class int real
      \<comment> \<open>\<^verbatim>\<open>cls(a, w=1.0)\<close>\<close>
  | GroupPrim coord_class "int list" "real list"
      \<comment> \<open>\<^verbatim>\<open>cls(atoms, w=np.ones(len(atoms))/len(atoms))\<close>\<close>
  | RotPrim coord_class "int list" "real list" real
      \<comment> \<open>\<^verbatim>\<open>cls(atoms, coords, {}, w=rg)\<close>\<close>

text \<open>A target value is a float or \<^verbatim>\<open>None\<close>.\<close>

type_synonym pyval = "real option"

text \<open>
  What \<^verbatim>\<open>parse_constraints\<close> reads of the molecule: \<^verbatim>\<open>molecule.na\<close>,
  \<^verbatim>\<open>molecule.elem\<close> and the first frame \<^verbatim>\<open>molecule.xyzs[0]\<close>, an array with one row of
  three coordinates per atom.
\<close>

record molecule =
  na :: nat
  elem :: "string list"
  xyzs0 :: "(real \<times> real \<times> real) list"

text \<open>
  The names that prepare.py imports from modules outside this file (\<^verbatim>\<open>nifty\<close>,
  \<^verbatim>\<open>molecule\<close>, \<^verbatim>\<open>rotate\<close>) and the conversions \<^verbatim>\<open>float()\<close> and \<^verbatim>\<open>int()\<close> of the
  interpreter are parameters of the model: \<^verbatim>\<open>ang2bohr\<close>, \<^verbatim>\<open>isint\<close>, \<^verbatim>\<open>uncommadash\<close>
  (\<^term>\<open>None\<close> when it raises), the list \<^verbatim>\<open>Elements\<close>, the first component of
  \<^verbatim>\<open>calc_fac_dfac\<close>, and the two conversions (\<^term>\<open>None\<close> for a ValueError).
\<close>

record env =
  ang2bohr :: real
  isint :: "string \<Rightarrow> bool"
  uncommadash :: "string \<Rightarrow> int list option"
  Elements :: "string list"
  calc_fac :: "real \<Rightarrow> real"
  float_of :: "string \<Rightarrow> real option"
  int_of :: "string \<Rightarrow> int option"

definition py_float :: "env \<Rightarrow> string \<Rightarrow> error + real" where
  "py_float ev tok = (case float_of ev tok of None \<Rightarrow> Inl (ValueError tok) | Some x \<Rightarrow> Inr x)"

definition py_int :: "env \<Rightarrow> string \<Rightarrow> error + int" where
  "py_int ev tok = (case int_of ev tok of None \<Rightarrow> Inl (ValueError tok) | Some i \<Rightarrow> Inr i)"

section \<open>The local variables of parse\_constraints\<close>

text \<open>
  The variables that live across the iterations of the loop over the lines: \<^verbatim>\<open>mode\<close>
  (\<^verbatim>\<open>None\<close> at first), \<^verbatim>\<open>in_options\<close>, \<^verbatim>\<open>objs\<close>, \<^verbatim>\<open>vals\<close>, and \<^verbatim>\<open>ntok\<close>, which is
  assigned only under the three modes and otherwise keeps the value of an earlier
  iteration (\<^term>\<open>None\<close> while it is unbound).
\<close>

record pstate =
  mode :: "string option"
  ntok :: "nat option"
  in_options :: bool
  objs :: "prim list list"
  vals :: "pyval list list list"

definition init_state :: pstate where
  "init_state = \<lparr>mode = None, ntok = None, in_options = False, objs = [], vals = []\<rparr>"

definition ClassDict :: "string \<Rightarrow> (coord_class list \<times> nat) option" where
  "ClassDict =
     map_of
       [(''distance'', ([Distance], 2)),
        (''angle'', ([Angle], 3)),
        (''dihedral'', ([Dihedral], 4)),
        (''x'', ([CartesianX], 1)),
        (''y'', ([CartesianY], 1)),
        (''z'', ([CartesianZ], 1)),
        (''xy'', ([CartesianX, CartesianY], 1)),
        (''xz'', ([CartesianX, CartesianZ], 1)),
        (''yz'', ([CartesianY, CartesianZ], 1)),
        (''xyz'', ([CartesianX, CartesianY, CartesianZ], 1)),
        (''trans-x'', ([TranslationX], 1)),
        (''trans-y'', ([TranslationY], 1)),
        (''trans-z'', ([TranslationZ], 1)),
        (''trans-xy'', ([TranslationX, TranslationY], 1)),
        (''trans-xz'', ([TranslationX, TranslationZ], 1)),
        (''trans-yz'', ([TranslationY, TranslationZ], 1)),
        (''trans-xyz'', ([TranslationX, TranslationY, TranslationZ], 1)),
        (''rotation'', ([RotationA, RotationB, RotationC], 1))]"

definition AtomKeys :: "string list" where
  "AtomKeys = [''x'', ''y'', ''z'', ''xy'', ''yz'', ''xz'', ''xyz'']"

definition TransKeys :: "string list" where
  "TransKeys =
     [''trans-x'', ''trans-y'', ''trans-z'', ''trans-xy'', ''trans-yz'', ''trans-xz'',
      ''trans-xyz'']"

text \<open>Lines 458 to 461: the letters of an axis keyword are sorted.\<close>

definition normalize_key :: "string \<Rightarrow> string" where
  "normalize_key key =
     (if sorted_str key \<in> set AtomKeys then sorted_str key
      else if sorted_str (remove_all ''trans-'' key) \<in> set AtomKeys
      then ''trans-'' @ sorted_str (remove_all ''trans-'' key)
      else key)"

text \<open>
  Lines 463 to 474: \<^verbatim>\<open>ntok\<close> is assigned under the modes freeze, set and scan; under any
  other mode no branch of the chain runs and the variable keeps what it held.
\<close>

definition assign_ntok :: "string \<Rightarrow> string \<Rightarrow> coord_class list \<Rightarrow> nat \<Rightarrow> nat option \<Rightarrow> nat option" where
  "assign_ntok m key classes n_atom held =
     (if m = ''freeze'' then Some n_atom
      else if m = ''set'' then
        (if key = ''rotation'' then Some (n_atom + 4) else Some (n_atom + length classes))
      else if m = ''scan'' then
        (if key = ''rotation'' then Some (n_atom + 6) else Some (n_atom + 2 * length classes + 1))
      else held)"

section \<open>The branches of a declaration line\<close>

fun bindE :: "error + 'a \<Rightarrow> ('a \<Rightarrow> error + 'b) \<Rightarrow> error + 'b" where
  "bindE (Inl e) f = Inl e"
| "bindE (Inr x) f = f x"

text \<open>
  Lines 479 to 484: the atom token of an axis or translation declaration is a 1-based
  number, an element symbol (every atom of that element), or a list for \<^verbatim>\<open>uncommadash\<close>.
\<close>

definition resolve_atoms :: "env \<Rightarrow> molecule \<Rightarrow> string \<Rightarrow> error + int list" where
  "resolve_atoms ev mol tok =
     (if isint ev tok then bindE (py_int ev tok) (\<lambda>i. Inr [i - 1])
      else if tok \<in> set (map lower (Elements ev)) then
        (if length (elem mol) < na mol then Inl IndexError
         else Inr (map int (filter (\<lambda>i. lower (elem mol ! i) = tok) [0..<na mol])))
      else (case uncommadash ev tok of None \<Rightarrow> Inl HelperError | Some L \<Rightarrow> Inr L))"

text \<open>Lines 485 to 488, and the same two checks at lines 543 to 546.\<close>

definition check_atoms :: "molecule \<Rightarrow> int list \<Rightarrow> error + int list" where
  "check_atoms mol atoms =
     (if list_ex (\<lambda>i. i < 0) atoms then Inl AtomNumbersStart
      else if list_ex (\<lambda>i. int (na mol) \<le> i) atoms then Inl AtomIndexTooHigh
      else Inr atoms)"

text \<open>\<^verbatim>\<open>[float(i) * ang2bohr for i in toks]\<close>\<close>

definition lengths :: "env \<Rightarrow> string list \<Rightarrow> error + real list" where
  "lengths ev toks = mapE (\<lambda>t. bindE (py_float ev t) (\<lambda>x. Inr (x * ang2bohr ev))) toks"

text \<open>
  Lines 489 to 508, an axis keyword: one group of objects per class, holding one object
  per atom, and one group of values per class.
\<close>

definition atom_objs :: "coord_class list \<Rightarrow> int list \<Rightarrow> prim list list" where
  "atom_objs classes atoms = map (\<lambda>cls. map (\<lambda>a. AtomPrim cls a 1) atoms) classes"

definition atom_vals ::
  "env \<Rightarrow> string \<Rightarrow> coord_class list \<Rightarrow> string list \<Rightarrow> int list \<Rightarrow> error + pyval list list list"
where
  "atom_vals ev m classes s atoms =
     (let k = length classes in
      if m = ''freeze'' then Inr (map (\<lambda>cls. [map (\<lambda>a. None) atoms]) classes)
      else if m = ''set'' then
        bindE (lengths ev (take k (drop 2 s))) (\<lambda>x1.
          mapE (\<lambda>icls. bindE (mapE (\<lambda>a. idx x1 icls) atoms) (\<lambda>row. Inr [map Some row]))
            [0..<k])
      else if m = ''scan'' then
        bindE (lengths ev (take k (drop 2 s))) (\<lambda>x1.
        bindE (lengths ev (take k (drop (2 + k) s))) (\<lambda>x2.
        bindE (idx s (2 + 2 * k)) (\<lambda>t.
        bindE (py_int ev t) (\<lambda>nstep.
        bindE (one_dimensional_scan x1 x2 nstep) (\<lambda>valscan.
          mapE (\<lambda>icls.
                  mapE (\<lambda>v. bindE (mapE (\<lambda>a. idx v icls) atoms) (\<lambda>row. Inr (map Some row)))
                    valscan)
            [0..<k])))))
      else Inr [])"

text \<open>
  Lines 509 to 532, a translation keyword: one group of objects, one object per class,
  on the centre of the atoms when there are several; one group of values.
\<close>

definition trans_objs :: "coord_class list \<Rightarrow> int list \<Rightarrow> error + prim list" where
  "trans_objs classes atoms =
     (if 1 < length atoms
      then Inr (map (\<lambda>cls. GroupPrim cls atoms
                              (replicate (length atoms) (1 / real (length atoms)))) classes)
      else mapE (\<lambda>cls. bindE (idx atoms 0) (\<lambda>a. Inr (AtomPrim cls a 1))) classes)"

definition trans_vals ::
  "env \<Rightarrow> string \<Rightarrow> coord_class list \<Rightarrow> string list \<Rightarrow> error + pyval list list list"
where
  "trans_vals ev m classes s =
     (let k = length classes in
      if m = ''freeze'' then Inr [[map (\<lambda>cls. None) classes]]
      else if m = ''set'' then
        bindE (lengths ev (take k (drop 2 s))) (\<lambda>x1. Inr [[map Some x1]])
      else if m = ''scan'' then
        bindE (lengths ev (take k (drop 2 s))) (\<lambda>x1.
        bindE (lengths ev (take k (drop (2 + k) s))) (\<lambda>x2.
        bindE (idx s (2 + 2 * k)) (\<lambda>t.
        bindE (py_int ev t) (\<lambda>nstep.
        bindE (one_dimensional_scan x1 x2 nstep) (\<lambda>valscan.
          Inr [map (map Some) valscan])))))
      else Inr [])"

text \<open>
  Lines 533 to 559, distance, angle and dihedral. The atoms are reversed when the
  compared pair is in descending order (lines 537 to 542).
\<close>

definition reverse_if :: "nat \<Rightarrow> nat \<Rightarrow> int list \<Rightarrow> error + int list" where
  "reverse_if i j atoms =
     bindE (idx atoms i) (\<lambda>a. bindE (idx atoms j) (\<lambda>b. Inr (if a > b then rev atoms else atoms)))"

definition canonical_atoms :: "string \<Rightarrow> int list \<Rightarrow> error + int list" where
  "canonical_atoms key atoms =
     bindE (if key = ''distance'' then reverse_if 0 1 atoms else Inr atoms) (\<lambda>atoms1.
     bindE (if key = ''angle'' then reverse_if 0 2 atoms1 else Inr atoms1) (\<lambda>atoms2.
     if key = ''dihedral'' then reverse_if 1 2 atoms2 else Inr atoms2))"

definition target :: "env \<Rightarrow> string \<Rightarrow> string \<Rightarrow> error + real" where
  "target ev key tok =
     bindE (py_float ev tok) (\<lambda>x.
       Inr (if key = ''distance'' then x * ang2bohr ev else x * pi / 180))"

definition bonded_vals ::
  "env \<Rightarrow> string \<Rightarrow> string \<Rightarrow> nat \<Rightarrow> string list \<Rightarrow> error + pyval list list list"
where
  "bonded_vals ev m key n_atom s =
     (if m = ''freeze'' then Inr [[[None]]]
      else if m \<in> set [''set'', ''scan''] then
        bindE (idx s (1 + n_atom)) (\<lambda>t1.
        bindE (target ev key t1) (\<lambda>x1.
          if m = ''set'' then Inr [[[Some x1]]]
          else
            bindE (idx s (2 + n_atom)) (\<lambda>t2.
            bindE (target ev key t2) (\<lambda>x2.
            bindE (idx s (3 + n_atom)) (\<lambda>t3.
            bindE (py_int ev t3) (\<lambda>nstep.
            bindE (linspace x1 x2 nstep) (\<lambda>ls.
              Inr [map (\<lambda>i. [Some i]) ls])))))))
      else Inr [])"

definition bonded_branch ::
  "env \<Rightarrow> molecule \<Rightarrow> pstate \<Rightarrow> string \<Rightarrow> string \<Rightarrow> coord_class list \<Rightarrow> nat \<Rightarrow> string list
     \<Rightarrow> error + pstate"
where
  "bonded_branch ev mol st m key classes n_atom s =
     (if length classes \<noteq> 1 then Inl NotOK
      else
        bindE (mapE (\<lambda>t. bindE (py_int ev t) (\<lambda>i. Inr (i - 1))) (take n_atom (drop 1 s)))
          (\<lambda>atoms0.
        bindE (canonical_atoms key atoms0) (\<lambda>atoms1.
        bindE (check_atoms mol atoms1) (\<lambda>atoms.
        bindE (bonded_vals ev m key n_atom s) (\<lambda>vs.
          Inr (st\<lparr>objs := objs st @ [[Bonded (classes ! 0) atoms]],
                  vals := vals st @ vs\<rparr>))))))"

section \<open>The rotation branch\<close>

text \<open>
  Line 433: \<^verbatim>\<open>coords = molecule.xyzs[0].flatten() * ang2bohr\<close>, and
  \<^verbatim>\<open>coords.reshape(-1,3)\<close> at line 563.
\<close>

definition flatten3 :: "(real \<times> real \<times> real) list \<Rightarrow> real list" where
  "flatten3 rows = concat (map (\<lambda>(x, y, z). [x, y, z]) rows)"

fun reshape3 :: "real list \<Rightarrow> (real \<times> real \<times> real) list" where
  "reshape3 (x # y # z # rest) = (x, y, z) # reshape3 rest"
| "reshape3 rest = []"

definition coords :: "env \<Rightarrow> molecule \<Rightarrow> real list" where
  "coords ev mol = map (\<lambda>x. x * ang2bohr ev) (flatten3 (xyzs0 mol))"

text \<open>
  \<^verbatim>\<open>array[atoms,:]\<close> for a list of integers: numpy counts a negative index from the end
  and raises IndexError for an index outside \<^verbatim>\<open>[-n, n)\<close>.
\<close>

definition np_take :: "'a list \<Rightarrow> int list \<Rightarrow> error + 'a list" where
  "np_take rows atoms =
     mapE (\<lambda>i. let n = int (length rows); j = (if i < 0 then i + n else i)
               in if 0 \<le> j \<and> j < n then Inr (rows ! nat j) else Inl IndexError)
       atoms"

definition scale3 :: "real \<Rightarrow> real \<times> real \<times> real \<Rightarrow> real \<times> real \<times> real" where
  "scale3 a r = (case r of (x, y, z) \<Rightarrow> (x * a, y * a, z * a))"

definition sub3 :: "real \<times> real \<times> real \<Rightarrow> real \<times> real \<times> real \<Rightarrow> real \<times> real \<times> real" where
  "sub3 r c = (case r of (x, y, z) \<Rightarrow> (case c of (cx, cy, cz) \<Rightarrow> (x - cx, y - cy, z - cz)))"

definition sumsq3 :: "real \<times> real \<times> real \<Rightarrow> real" where
  "sumsq3 r = (case r of (x, y, z) \<Rightarrow> x\<^sup>2 + y\<^sup>2 + z\<^sup>2)"

definition mean :: "real list \<Rightarrow> real" where
  "mean xs = sum_list xs / real (length xs)"

definition mean_rows :: "(real \<times> real \<times> real) list \<Rightarrow> real \<times> real \<times> real" where
  "mean_rows rows =
     (mean (map fst rows), mean (map (\<lambda>r. fst (snd r)) rows), mean (map (\<lambda>r. snd (snd r)) rows))"

text \<open>
  The root-mean-square distance of the rows from their mean:
  \<^verbatim>\<open>sel -= np.mean(sel, axis=0); np.sqrt(np.mean(np.sum(sel**2, axis=1)))\<close>.
\<close>

definition rms_radius :: "(real \<times> real \<times> real) list \<Rightarrow> real" where
  "rms_radius sel = sqrt (mean (map (\<lambda>r. sumsq3 (sub3 r (mean_rows sel))) sel))"

text \<open>Lines 563 to 565.\<close>

definition rotation_rg :: "env \<Rightarrow> molecule \<Rightarrow> int list \<Rightarrow> error + real" where
  "rotation_rg ev mol atoms =
     bindE (np_take (reshape3 (coords ev mol)) atoms) (\<lambda>rows.
       Inr (rms_radius (map (scale3 (ang2bohr ev)) rows)))"

text \<open>The remainder of Python floats, \<^verbatim>\<open>x % m\<close>, on the reals.\<close>

definition py_mod :: "real \<Rightarrow> real \<Rightarrow> real" where
  "py_mod x m = x - m * of_int \<lfloor>x / m\<rfloor>"

text \<open>Lines 581 and 602: \<^verbatim>\<open>theta3 = (theta + np.pi) % (2*np.pi) - np.pi\<close>.\<close>

definition wrap_angle :: "real \<Rightarrow> real" where
  "wrap_angle theta = py_mod (theta + pi) (2 * pi) - pi"

text \<open>Lines 581 to 589 and 602 to 610: the three target values of one angle.\<close>

definition rot_triple :: "env \<Rightarrow> real list \<Rightarrow> real \<Rightarrow> real \<Rightarrow> real list" where
  "rot_triple ev u rg theta =
     (let theta3 = wrap_angle theta;
          c = cos (theta3 / 2);
          sn = sin (theta3 / 2);
          q = [c, (u ! 0) * sn, (u ! 1) * sn, (u ! 2) * sn];
          fac = calc_fac ev c
      in [fac * (q ! 1) * rg, fac * (q ! 2) * rg, fac * (q ! 3) * rg])"

definition degrees :: "env \<Rightarrow> string \<Rightarrow> error + real" where
  "degrees ev tok = bindE (py_float ev tok) (\<lambda>x. Inr (x * pi / 180))"

definition rotation_vals ::
  "env \<Rightarrow> string \<Rightarrow> string list \<Rightarrow> real \<Rightarrow> error + pyval list list list"
where
  "rotation_vals ev m s rg =
     bindE (mapE (\<lambda>i. bindE (idx s i) (py_float ev)) [2, 3, 4]) (\<lambda>u0.
       (let nrm = sqrt (sum_list (map (\<lambda>x. x\<^sup>2) u0));
            u = map (\<lambda>x. x / nrm) u0
        in
          bindE (idx s 5) (\<lambda>t5.
          bindE (degrees ev t5) (\<lambda>theta1.
            if m = ''set'' then Inr [[map Some (rot_triple ev u rg theta1)]]
            else
              bindE (idx s 6) (\<lambda>t6.
              bindE (degrees ev t6) (\<lambda>theta2.
              bindE (idx s 7) (\<lambda>t7.
              bindE (py_int ev t7) (\<lambda>steps.
              bindE (linspace theta1 theta2 steps) (\<lambda>thetas.
                Inr [map (\<lambda>theta. map Some (rot_triple ev u rg theta)) thetas])))))))))"

definition rotation_branch ::
  "env \<Rightarrow> molecule \<Rightarrow> pstate \<Rightarrow> string \<Rightarrow> coord_class list \<Rightarrow> string list \<Rightarrow> error + pstate"
where
  "rotation_branch ev mol st m classes s =
     bindE (idx s 1) (\<lambda>t1.
     bindE (case uncommadash ev t1 of None \<Rightarrow> Inl HelperError | Some L \<Rightarrow> Inr L) (\<lambda>atoms.
     bindE (rotation_rg ev mol atoms) (\<lambda>rg.
       if m = ''freeze'' then
         Inr (st\<lparr>objs := objs st @ map (\<lambda>cls. [RotPrim cls atoms (coords ev mol) rg]) classes,
                 vals := vals st @ map (\<lambda>cls. [[None]]) classes\<rparr>)
       else if m \<in> set [''set'', ''scan''] then
         bindE (rotation_vals ev m s rg) (\<lambda>vs.
           Inr (st\<lparr>objs := objs st @ [map (\<lambda>cls. RotPrim cls atoms (coords ev mol) rg) classes],
                   vals := vals st @ vs\<rparr>))
       else Inr st)))"

section \<open>The loop over the lines and the final grid\<close>

text \<open>Lines 456 to 611: a declaration line, already stripped and in lower case.\<close>

definition parse_decl :: "env \<Rightarrow> molecule \<Rightarrow> pstate \<Rightarrow> string \<Rightarrow> string \<Rightarrow> error + pstate" where
  "parse_decl ev mol st m line =
     (let s = split_ws line in
      bindE (idx s 0) (\<lambda>key0.
        let key = normalize_key key0 in
        (case ClassDict key of
           None \<Rightarrow> Inl (KeyError key)
         | Some (classes, n_atom) \<Rightarrow>
             (case assign_ntok m key classes n_atom (ntok st) of
                None \<Rightarrow> Inl (UnboundLocalError ''ntok'')
              | Some nt \<Rightarrow>
                  if length s \<noteq> nt + 1 then Inl (TokenCount line (nt + 1) (length s))
                  else
                    let st1 = st\<lparr>ntok := Some nt\<rparr> in
                    if key \<in> set AtomKeys \<or> key \<in> set TransKeys then
                      bindE (idx s 1) (\<lambda>t1.
                      bindE (resolve_atoms ev mol t1) (\<lambda>atoms0.
                      bindE (check_atoms mol atoms0) (\<lambda>atoms.
                        if key \<in> set AtomKeys then
                          bindE (atom_vals ev m classes s atoms) (\<lambda>vs.
                            Inr (st1\<lparr>objs := objs st1 @ atom_objs classes atoms,
                                     vals := vals st1 @ vs\<rparr>))
                        else
                          bindE (trans_objs classes atoms) (\<lambda>grp.
                          bindE (trans_vals ev m classes s) (\<lambda>vs.
                            Inr (st1\<lparr>objs := objs st1 @ [grp], vals := vals st1 @ vs\<rparr>))))))
                    else if key \<in> set [''distance'', ''angle'', ''dihedral''] then
                      bonded_branch ev mol st1 m key classes n_atom s
                    else if key \<in> set [''rotation''] then
                      rotation_branch ev mol st1 m classes s
                    else Inr st1))))"

text \<open>Lines 436 to 455: one line of the constraints string.\<close>

definition clean :: "string \<Rightarrow> string" where
  "clean line = lower (strip (takeWhile (\<lambda>c. c \<noteq> CHR ''#'') line))"

definition parse_line :: "env \<Rightarrow> molecule \<Rightarrow> pstate \<Rightarrow> string \<Rightarrow> error + pstate" where
  "parse_line ev mol st line =
     (let opt = (if str_in ''$options'' line then True else in_options st) in
      if opt then Inr (st\<lparr>in_options := (if str_in ''$end'' line then False else opt)\<rparr>)
      else
        let l = clean line in
        if length l = 0 then Inr (st\<lparr>in_options := opt\<rparr>)
        else if startswith l ''$'' then
          Inr (st\<lparr>in_options := opt, mode := Some (filter (\<lambda>c. c \<noteq> CHR ''$'') l)\<rparr>)
        else
          (case mode st of
             None \<Rightarrow> Inl ModeNotSet
           | Some m \<Rightarrow> parse_decl ev mol (st\<lparr>in_options := opt\<rparr>) m l))"

fun parse_lines :: "env \<Rightarrow> molecule \<Rightarrow> pstate \<Rightarrow> string list \<Rightarrow> error + pstate" where
  "parse_lines ev mol st [] = Inr st"
| "parse_lines ev mol st (l # ls) =
     (case parse_line ev mol st l of
        Inl e \<Rightarrow> Inl e
      | Inr st' \<Rightarrow> parse_lines ev mol st' ls)"

text \<open>
  \<^verbatim>\<open>itertools.product(*pools)\<close>, as the documentation of itertools writes it:
  \<^verbatim>\<open>result = [[]]\<close>, and for each pool \<^verbatim>\<open>result = [x+[y] for x in result for y in pool]\<close>.
\<close>

definition itertools_product :: "'a list list \<Rightarrow> 'a list list" where
  "itertools_product pools =
     foldl (\<lambda>result pool. concat (map (\<lambda>x. map (\<lambda>y. x @ [y]) pool) result)) [[]] pools"

text \<open>Lines 612 to 616.\<close>

definition finish :: "pstate \<Rightarrow> error + prim list \<times> pyval list list" where
  "finish st =
     (if length (objs st) \<noteq> length (vals st) then Inl ObjsValsLength
      else Inr (concat (objs st), map concat (itertools_product (vals st))))"

definition compile_lines :: "env \<Rightarrow> molecule \<Rightarrow> string \<Rightarrow> error + pstate" where
  "compile_lines ev mol constraints_string =
     parse_lines ev mol init_state (split_sep (CHR 0x0A) constraints_string)"

definition parse_constraints ::
  "env \<Rightarrow> molecule \<Rightarrow> string \<Rightarrow> error + prim list \<times> pyval list list"
where
  "parse_constraints ev mol constraints_string =
     bindE (compile_lines ev mol constraints_string) finish"

section \<open>A concrete environment\<close>

text \<open>
  Decimal literals: digits, with an optional sign, and for a float an optional fraction
  after a point. On these tokens \<^verbatim>\<open>int()\<close> and \<^verbatim>\<open>float()\<close> return the number read here.
\<close>

definition digit_val :: "char \<Rightarrow> nat option" where
  "digit_val = map_of (zip ''0123456789'' [0, 1, 2, 3, 4, 5, 6, 7, 8, 9])"

fun digits_val :: "nat \<Rightarrow> string \<Rightarrow> nat option" where
  "digits_val acc [] = Some acc"
| "digits_val acc (c # cs) =
     (case digit_val c of None \<Rightarrow> None | Some d \<Rightarrow> digits_val (10 * acc + d) cs)"

definition dec_nat :: "string \<Rightarrow> nat option" where
  "dec_nat s = (if s = [] then None else digits_val 0 s)"

definition dec_int :: "string \<Rightarrow> int option" where
  "dec_int s =
     (case s of
        [] \<Rightarrow> None
      | c # cs \<Rightarrow>
          if c = CHR ''-'' then map_option (\<lambda>n. - int n) (dec_nat cs)
          else if c = CHR ''+'' then map_option int (dec_nat cs)
          else map_option int (dec_nat s))"

definition dec_unsigned :: "string \<Rightarrow> real option" where
  "dec_unsigned s =
     (let ip = takeWhile (\<lambda>c. c \<noteq> CHR ''.'') s;
          fp = drop (Suc (length ip)) s
      in if ip = [] \<and> fp = [] then None
         else (case digits_val 0 ip of
                 None \<Rightarrow> None
               | Some i \<Rightarrow>
                   (case digits_val 0 fp of
                      None \<Rightarrow> None
                    | Some f \<Rightarrow> Some (real i + real f / 10 ^ length fp))))"

definition dec_float :: "string \<Rightarrow> real option" where
  "dec_float s =
     (case s of
        [] \<Rightarrow> None
      | c # cs \<Rightarrow>
          if c = CHR ''-'' then map_option uminus (dec_unsigned cs)
          else if c = CHR ''+'' then dec_unsigned cs
          else dec_unsigned s)"

text \<open>
  Modelled from the spec: \<^verbatim>\<open>isint\<close> and \<^verbatim>\<open>uncommadash\<close> of the module \<^verbatim>\<open>nifty\<close>, which
  is not part of the sources at hand. The spec (4.2) has a token that is a pure integer
  read as a 1-based index, and any other token parsed as a comma-separated list of single
  indices or dash-ranges, 1-based and inclusive, converted to zero-based indices.
\<close>

definition spec_isint :: "string \<Rightarrow> bool" where
  "spec_isint tok = (dec_int tok \<noteq> None)"

definition spec_range :: "string \<Rightarrow> int list option" where
  "spec_range part =
     (case map dec_nat (split_sep (CHR ''-'') part) of
        [Some a] \<Rightarrow> Some [int a - 1]
      | [Some a, Some b] \<Rightarrow> Some (map (\<lambda>i. int i - 1) [a..<Suc b])
      | _ \<Rightarrow> None)"

fun concat_options :: "'a list option list \<Rightarrow> 'a list option" where
  "concat_options [] = Some []"
| "concat_options (x # xs) =
     (case x of
        None \<Rightarrow> None
      | Some ys \<Rightarrow> (case concat_options xs of None \<Rightarrow> None | Some zs \<Rightarrow> Some (ys @ zs)))"

definition spec_uncommadash :: "string \<Rightarrow> int list option" where
  "spec_uncommadash tok = concat_options (map spec_range (split_sep (CHR '','') tok))"

text \<open>
  Modelled from the spec: the first component of \<^verbatim>\<open>calc_fac_dfac\<close> of the module
  \<^verbatim>\<open>rotate\<close>, the factor that turns the imaginary part of a unit quaternion with real
  part \<^verbatim>\<open>c\<close> into the exponential-map vector, with \<^verbatim>\<open>fac(1) = 2\<close> (spec 4.4); and the
  conversion factor of spec 6.
\<close>

definition spec_fac :: "real \<Rightarrow> real" where
  "spec_fac c = (if c = 1 then 2 else 2 * arccos c / sqrt (1 - c\<^sup>2))"

definition spec_ang2bohr :: real where
  "spec_ang2bohr = 18897259886 / 10000000000"

definition ref_env :: env where
  "ref_env =
     \<lparr>ang2bohr = spec_ang2bohr,
      isint = spec_isint,
      uncommadash = spec_uncommadash,
      Elements = [''H'', ''He'', ''Li'', ''Be'', ''B'', ''C'', ''N'', ''O'', ''F'', ''Ne''],
      calc_fac = spec_fac,
      float_of = dec_float,
      int_of = dec_int\<rparr>"

text \<open>A molecule of three atoms on the x axis, 1 Angstrom apart.\<close>

definition mol3 :: molecule where
  "mol3 = \<lparr>na = 3, elem = [''O'', ''H'', ''H''], xyzs0 = [(0, 0, 0), (1, 0, 0), (2, 0, 0)]\<rparr>"

section \<open>Definitions that follow the wording of the specification\<close>

text \<open>
  The sample at position \<open>i\<close> of \<open>n\<close> equally spaced values from \<open>a\<close> to \<open>b\<close>, both
  endpoints included.
\<close>

definition lin_sample :: "real \<Rightarrow> real \<Rightarrow> nat \<Rightarrow> nat \<Rightarrow> real" where
  "lin_sample a b n i = (if 1 < n \<and> i = n - 1 then b else a + real i * (b - a) / real (n - 1))"

text \<open>
  The radius that the spec gives for a rotation declaration: the root-mean-square distance
  of the selected atoms from their centroid, in the coordinates in Bohr (the input
  coordinates multiplied by the conversion factor once).
\<close>

definition rg_spec :: "env \<Rightarrow> molecule \<Rightarrow> int list \<Rightarrow> error + real" where
  "rg_spec ev mol atoms =
     bindE (np_take (reshape3 (coords ev mol)) atoms) (\<lambda>rows. Inr (rms_radius rows))"








definition sample5 :: string where
  "sample5 = ''$freeze'' @ [CHR 0x0A] @ ''distance 1 2 # $options'' @ [CHR 0x0A] @ ''distance 1''
       @ [CHR 0x0A] @ ''# $end'' @ [CHR 0x0A] @ ''x 1''"








text \<open>
  The groups of objects and the groups of values are aligned when every step of a
  group of values has one value for each object of the group of objects at the same
  position. The loop keeps the state such that \<open>vals\<close> is never longer than \<open>objs\<close>, and
  the two are aligned whenever they have the same length.
\<close>

definition aligned :: "prim list list \<Rightarrow> pyval list list list \<Rightarrow> bool" where
  "aligned os vs = list_all2 (\<lambda>g v. list_all (\<lambda>step. length step = length g) v) os vs"

definition groups_ok :: "prim list list \<Rightarrow> pyval list list list \<Rightarrow> bool" where
  "groups_ok os vs = (length vs \<le> length os \<and> (length vs = length os \<longrightarrow> aligned os vs))"

definition sample11 :: string where
  "sample11 = ''$scan'' @ [CHR 0x0A] @ ''xy 1 0 0 1 1 2'' @ [CHR 0x0A] @ ''z 2 0 1 2''"

definition sample12 :: string where
  "sample12 = ''$scan'' @ [CHR 0x0A] @ ''distance 1 2 1 2 2'' @ [CHR 0x0A] @ ''z 2 0 1 3''"

section \<open>Properties of the scan generator\<close>

lemma mapE_Inr_length: "mapE f xs = Inr ys \<Longrightarrow> length ys = length xs"
  by (induction xs arbitrary: ys) (auto split: sum.splits)

lemma mapE_all_Inr:
  "(\<And>x. x \<in> set xs \<Longrightarrow> f x = Inr (g x)) \<Longrightarrow> mapE f xs = Inr (map g xs)"
  by (induction xs) auto

lemma linspace_list:
  fixes n :: nat
  shows "(if 1 < n
          then (map (\<lambda>i. (if 0 < n - 1 then real i * ((b - a) / real (n - 1)) else real i * (b - a)) + a) [0..<n])
                 [n - 1 := b]
          else map (\<lambda>i. (if 0 < n - 1 then real i * ((b - a) / real (n - 1)) else real i * (b - a)) + a) [0..<n])
         = map (lin_sample a b n) [0..<n]"
proof (cases "1 < n")
  case True
  then show ?thesis
    by (intro nth_equalityI) (auto simp: lin_sample_def nth_list_update)
next
  case False
  then have "n = 0 \<or> n = 1" by auto
  then show ?thesis by (auto simp: lin_sample_def)
qed

lemma linspace_samples:
  assumes "0 \<le> num"
  shows "linspace a b num = Inr (map (lin_sample a b (nat num)) [0..<nat num])"
  using assms linspace_list[of "nat num" b a]
  by (simp add: linspace_def Let_def del: One_nat_def)

lemma np_transpose_rect:
  assumes "0 < k"
  shows "np_transpose (map (\<lambda>j. map (f j) [0..<n]) [0..<k]) = map (\<lambda>i. map (\<lambda>j. f j i) [0..<k]) [0..<n]"
proof -
  from assms obtain k' where k: "k = Suc k'" by (cases k) auto
  have "[0..<k] = 0 # [1..<k]" using assms by (simp add: upt_conv_Cons)
  then have "np_transpose (map (\<lambda>j. map (f j) [0..<n]) [0..<k]) =
        map (\<lambda>i. map (\<lambda>row. row ! i) (map (\<lambda>j. map (f j) [0..<n]) [0..<k])) [0..<n]"
    by (simp add: np_transpose_def)
  also have "\<dots> = map (\<lambda>i. map (\<lambda>j. f j i) [0..<k]) [0..<n]"
    by (simp add: comp_def)
  finally show ?thesis .
qed

lemma one_dimensional_scan_rows:
  assumes "length init = length final" "init \<noteq> []" "0 \<le> steps"
  shows "one_dimensional_scan init final steps =
           Inr (map (\<lambda>i. map (\<lambda>j. lin_sample (init ! j) (final ! j) (nat steps) i) [0..<length init])
                  [0..<nat steps])"
proof -
  have "mapE (\<lambda>j. linspace (init ! j) (final ! j) steps) [0..<length init] =
        Inr (map (\<lambda>j. map (lin_sample (init ! j) (final ! j) (nat steps)) [0..<nat steps]) [0..<length init])"
    by (rule mapE_all_Inr) (simp add: linspace_samples assms)
  moreover have "0 < length init" "final \<noteq> []" using assms by auto
  ultimately show ?thesis
    using assms np_transpose_rect[of "length init" "\<lambda>j. lin_sample (init ! j) (final ! j) (nat steps)" "nat steps"]
    by (simp add: one_dimensional_scan_def)
qed




section \<open>Properties of the rotation branch\<close>




lemma mean_scale: "mean (map (\<lambda>r. f r * a) rows) = mean (map f rows) * a"
  by (simp add: mean_def sum_list_mult_const)

lemma scale3_sel:
  "fst (scale3 a r) = fst r * a"
  "fst (snd (scale3 a r)) = fst (snd r) * a"
  "snd (snd (scale3 a r)) = snd (snd r) * a"
  by (simp_all add: scale3_def split_def)

lemma mean_rows_scale: "mean_rows (map (scale3 a) rows) = scale3 a (mean_rows rows)"
  by (simp add: mean_rows_def comp_def scale3_sel mean_scale) (simp add: scale3_def)

lemma sumsq3_scale: "sumsq3 (sub3 (scale3 a r) (scale3 a c)) = sumsq3 (sub3 r c) * a\<^sup>2"
  by (cases r; cases c) (simp add: sumsq3_def sub3_def scale3_def power2_eq_square algebra_simps)

lemma rms_radius_scale: "rms_radius (map (scale3 a) rows) = \<bar>a\<bar> * rms_radius rows"
proof -
  have "rms_radius (map (scale3 a) rows) =
        sqrt (mean (map (\<lambda>r. sumsq3 (sub3 r (mean_rows rows)) * a\<^sup>2) rows))"
    by (simp add: rms_radius_def mean_rows_scale comp_def sumsq3_scale)
  also have "\<dots> = sqrt (mean (map (\<lambda>r. sumsq3 (sub3 r (mean_rows rows))) rows) * a\<^sup>2)"
    by (simp only: mean_scale)
  also have "\<dots> = \<bar>a\<bar> * rms_radius rows"
    by (simp add: rms_radius_def real_sqrt_mult mult.commute)
  finally show ?thesis .
qed

lemma rotation_rg_twice:
  "rotation_rg ev mol atoms = bindE (rg_spec ev mol atoms) (\<lambda>r. Inr (\<bar>ang2bohr ev\<bar> * r))"
  by (cases "np_take (reshape3 (coords ev mol)) atoms")
     (simp_all add: rotation_rg_def rg_spec_def rms_radius_scale)

lemma rms_two: "rms_radius [(0, 0, 0), (c, 0, 0)] = \<bar>c\<bar> / 2"
proof -
  have "rms_radius [(0, 0, 0), (c, 0, 0)] = sqrt ((c / 2)\<^sup>2)"
    by (simp add: rms_radius_def mean_rows_def mean_def sumsq3_def sub3_def power2_eq_square field_simps)
  then show ?thesis by simp
qed

lemma mol3_rows: "np_take (reshape3 (coords ref_env mol3)) [0, 1] = Inr [(0, 0, 0), (spec_ang2bohr, 0, 0)]"
  by (simp add: np_take_def coords_def flatten3_def ref_env_def mol3_def)

text \<open>
  Claim C5 against the code, for the first two atoms of a molecule with atoms at 0 and
  1 Angstrom on the x axis: the radius of the claim is half the conversion factor, and
  the weight that the rotation branch computes is half the square of the factor, since
  line 563 multiplies by \<^verbatim>\<open>ang2bohr\<close> the coordinates that line 433 has already
  converted.
\<close>

theorem rotation_rg_converts_twice:
  "rg_spec ref_env mol3 [0, 1] = Inr (spec_ang2bohr / 2) \<and>
   rotation_rg ref_env mol3 [0, 1] = Inr (spec_ang2bohr * spec_ang2bohr / 2) \<and>
   spec_ang2bohr * spec_ang2bohr / 2 \<noteq> spec_ang2bohr / 2"
proof -
  have pos: "0 < spec_ang2bohr" by (simp add: spec_ang2bohr_def)
  have a: "rg_spec ref_env mol3 [0, 1] = Inr (spec_ang2bohr / 2)"
    using pos by (simp add: rg_spec_def mol3_rows rms_two)
  have e: "ang2bohr ref_env = spec_ang2bohr" by (simp add: ref_env_def)
  have b: "rotation_rg ref_env mol3 [0, 1] = Inr (spec_ang2bohr * spec_ang2bohr / 2)"
    using pos by (simp add: rotation_rg_twice a e)
  have c: "spec_ang2bohr * spec_ang2bohr / 2 \<noteq> spec_ang2bohr / 2"
    by (simp add: spec_ang2bohr_def)
  from a b c show ?thesis by blast
qed

section \<open>Properties of the loop over the lines\<close>

lemma bindE_Inr_iff: "bindE m f = Inr y \<longleftrightarrow> (\<exists>x. m = Inr x \<and> f x = Inr y)"
  by (cases m) simp_all


lemma parse_lines_append:
  "parse_lines ev mol st (xs @ ys) = bindE (parse_lines ev mol st xs) (\<lambda>st'. parse_lines ev mol st' ys)"
  by (induction xs arbitrary: st) (auto split: sum.splits)

lemma in_options_False: "\<not> in_options st \<Longrightarrow> st\<lparr>in_options := False\<rparr> = st"
  by (cases st) simp

lemma parse_line_declaration:
  assumes "\<not> in_options st" "\<not> str_in ''$options'' l" "clean l \<noteq> []" "\<not> startswith (clean l) ''$''"
  shows "parse_line ev mol st l =
           (case mode st of None \<Rightarrow> Inl ModeNotSet | Some m \<Rightarrow> parse_decl ev mol st m (clean l))"
  using assms by (simp add: parse_line_def Let_def in_options_False split: option.splits)

lemma parse_line_marker:
  assumes "\<not> in_options st" "\<not> str_in ''$options'' l" "startswith (clean l) ''$''"
  shows "parse_line ev mol st l = Inr (st\<lparr>mode := Some (filter (\<lambda>c. c \<noteq> CHR ''$'') (clean l))\<rparr>)"
proof -
  from assms(3) have "clean l \<noteq> []" by (cases "clean l") simp_all
  with assms show ?thesis by (simp add: parse_line_def Let_def in_options_False)
qed

lemma parse_line_skipped:
  assumes "in_options st \<or> str_in ''$options'' l"
  shows "parse_line ev mol st l = Inr (st\<lparr>in_options := \<not> str_in ''$end'' l\<rparr>)"
  using assms by (auto simp: parse_line_def Let_def)

lemma parse_line_blank:
  assumes "\<not> in_options st" "\<not> str_in ''$options'' l" "clean l = []"
  shows "parse_line ev mol st l = Inr st"
  using assms by (simp add: parse_line_def Let_def in_options_False)





text \<open>The equations that evaluate the model on a concrete input.\<close>

lemmas eval_simps = ref_env_def mol3_def init_state_def parse_line_def clean_def strip_def is_space_def lower_def lower_char_def lower_table_def
  parse_decl_def split_ws_def idx_def normalize_key_def sorted_str_def AtomKeys_def TransKeys_def ClassDict_def assign_ntok_def
  resolve_atoms_def spec_isint_def dec_int_def dec_nat_def digit_val_def py_int_def py_float_def check_atoms_def atom_vals_def atom_objs_def
  lengths_def dec_float_def dec_unsigned_def bonded_branch_def bonded_vals_def canonical_atoms_def reverse_if_def target_def
  trans_objs_def trans_vals_def Let_def


section \<open>Token counts\<close>

lemma ClassDict_cases:
  assumes "ClassDict key = Some (classes, n_atom)"
  shows "(key = ''distance'' \<and> classes = [Distance] \<and> n_atom = 2) \<or>
         (key = ''angle'' \<and> classes = [Angle] \<and> n_atom = 3) \<or>
         (key = ''dihedral'' \<and> classes = [Dihedral] \<and> n_atom = 4) \<or>
         (key = ''rotation'' \<and> classes = [RotationA, RotationB, RotationC] \<and> n_atom = 1) \<or>
         (key \<in> set AtomKeys \<and> classes \<noteq> [] \<and> n_atom = 1) \<or>
         (key \<in> set TransKeys \<and> classes \<noteq> [] \<and> n_atom = 1)"
  using assms by (auto simp: ClassDict_def AtomKeys_def TransKeys_def split: if_splits)


lemma parse_decl_token_count:
  assumes "split_ws line = key0 # args"
      and "ClassDict (normalize_key key0) = Some (classes, n_atom)"
      and "assign_ntok m (normalize_key key0) classes n_atom (ntok st) = Some nt"
      and "length args \<noteq> nt"
  shows "parse_decl ev mol st m line = Inl (TokenCount line (nt + 1) (length args + 1))"
  using assms by (simp add: parse_decl_def idx_def)





section \<open>Mode markers\<close>




section \<open>The options block\<close>

lemma skipped_block:
  "in_options st \<Longrightarrow> list_all (\<lambda>x. \<not> str_in ''$end'' x) ls \<Longrightarrow> parse_lines ev mol st ls = Inr st"
proof (induction ls)
  case Nil
  then show ?case by simp
next
  case (Cons l ls)
  from Cons.prems have "parse_line ev mol st l = Inr (st\<lparr>in_options := True\<rparr>)"
    by (simp add: parse_line_skipped)
  moreover from Cons.prems(1) have "st\<lparr>in_options := True\<rparr> = st" by (cases st) simp
  ultimately show ?case using Cons by simp
qed

lemma options_block_skipped:
  assumes "str_in ''$options'' l" "\<not> str_in ''$end'' l"
      and "list_all (\<lambda>x. \<not> str_in ''$end'' x) mid" "str_in ''$end'' e"
  shows "parse_lines ev mol st (l # mid @ e # post) = parse_lines ev mol (st\<lparr>in_options := False\<rparr>) post"
proof -
  let ?st = "st\<lparr>in_options := True\<rparr>"
  have a: "parse_line ev mol st l = Inr ?st" using assms(1,2) by (simp add: parse_line_skipped)
  have b: "parse_lines ev mol ?st mid = Inr ?st" using assms(3) by (simp add: skipped_block)
  have c: "parse_line ev mol ?st e = Inr (st\<lparr>in_options := False\<rparr>)"
    using assms(4) by (simp add: parse_line_skipped)
  from a b c show ?thesis by (simp add: parse_lines_append)
qed

lemma options_block_open:
  assumes "str_in ''$options'' l" "list_all (\<lambda>x. \<not> str_in ''$end'' x) (l # ls)"
  shows "parse_lines ev mol st (l # ls) = Inr (st\<lparr>in_options := True\<rparr>)"
proof -
  let ?st = "st\<lparr>in_options := True\<rparr>"
  have a: "parse_line ev mol st l = Inr ?st" using assms by (simp add: parse_line_skipped)
  have b: "parse_lines ev mol ?st ls = Inr ?st" using assms(2) by (simp add: skipped_block)
  from a b show ?thesis by simp
qed

text \<open>
  Claim C10. The tests for the markers of the options block are substring tests on the
  raw line. A line that holds \<open>$options\<close> anywhere, also in its comment, and no
  \<open>$end\<close>, opens the block: this line and the lines after it are not parsed, up to and
  including the next line that holds \<open>$end\<close>, and the result is that of the lines
  after the block; when no line holds \<open>$end\<close>, nothing more is parsed. The upper-case
  \<open>$OPTIONS\<close> and \<open>$END\<close> are no options markers: outside the block \<open>$OPTIONS\<close>
  is read as a mode marker, and inside the block \<open>$END\<close> leaves the block open.
\<close>

theorem options_markers:
  "(split_sep (CHR 0x0A) cs = pre @ l # mid @ e # post \<and>
    parse_lines ev mol init_state pre = Inr st \<and> \<not> in_options st \<and>
    str_in ''$options'' l \<and> \<not> str_in ''$end'' l \<and>
    list_all (\<lambda>x. \<not> str_in ''$end'' x) mid \<and> str_in ''$end'' e \<longrightarrow>
      parse_constraints ev mol cs = bindE (parse_lines ev mol st post) finish) \<and>
   (split_sep (CHR 0x0A) cs = pre @ l # ls \<and>
    parse_lines ev mol init_state pre = Inr st \<and>
    str_in ''$options'' l \<and> list_all (\<lambda>x. \<not> str_in ''$end'' x) (l # ls) \<longrightarrow>
      parse_constraints ev mol cs = finish (st\<lparr>in_options := True\<rparr>)) \<and>
   \<not> str_in ''$options'' ''$OPTIONS'' \<and> \<not> str_in ''$end'' ''$END'' \<and>
   (\<not> in_options st \<longrightarrow> parse_line ev mol st ''$OPTIONS'' = Inr (st\<lparr>mode := Some ''options''\<rparr>)) \<and>
   (in_options st \<longrightarrow> parse_line ev mol st ''$END'' = Inr st)"
proof (intro conjI impI)
  assume h: "split_sep (CHR 0x0A) cs = pre @ l # mid @ e # post \<and>
    parse_lines ev mol init_state pre = Inr st \<and> \<not> in_options st \<and>
    str_in ''$options'' l \<and> \<not> str_in ''$end'' l \<and>
    list_all (\<lambda>x. \<not> str_in ''$end'' x) mid \<and> str_in ''$end'' e"
  then have "parse_lines ev mol st (l # mid @ e # post) = parse_lines ev mol st post"
    using options_block_skipped[of l mid e ev mol st post]
    by (simp add: in_options_False del: parse_lines.simps)
  with h show "parse_constraints ev mol cs = bindE (parse_lines ev mol st post) finish"
    by (simp add: parse_constraints_def compile_lines_def parse_lines_append del: parse_lines.simps)
next
  assume h: "split_sep (CHR 0x0A) cs = pre @ l # ls \<and>
    parse_lines ev mol init_state pre = Inr st \<and>
    str_in ''$options'' l \<and> list_all (\<lambda>x. \<not> str_in ''$end'' x) (l # ls)"
  then have "parse_lines ev mol st (l # ls) = Inr (st\<lparr>in_options := True\<rparr>)"
    by (intro options_block_open) simp_all
  with h show "parse_constraints ev mol cs = finish (st\<lparr>in_options := True\<rparr>)"
    by (simp add: parse_constraints_def compile_lines_def parse_lines_append del: parse_lines.simps)
next
  show "\<not> str_in ''$options'' ''$OPTIONS''" by simp
next
  show "\<not> str_in ''$end'' ''$END''" by simp
next
  assume n: "\<not> in_options st"
  have c: "clean ''$OPTIONS'' = ''$options''"
    by (simp add: clean_def strip_def is_space_def lower_def lower_char_def lower_table_def)
  have "\<not> str_in ''$options'' ''$OPTIONS''" by simp
  from parse_line_marker[OF n this, of ev mol] c
  show "parse_line ev mol st ''$OPTIONS'' = Inr (st\<lparr>mode := Some ''options''\<rparr>)" by simp
next
  assume i: "in_options st"
  then have "st\<lparr>in_options := True\<rparr> = st" by (cases st) simp
  with i show "parse_line ev mol st ''$END'' = Inr st" by (simp add: parse_line_skipped)
qed

theorem options_markers_witness:
  "split_sep (CHR 0x0A) sample5 =
     [''$freeze''] @ ''distance 1 2 # $options'' # [''distance 1''] @ ''# $end'' # [''x 1''] \<and>
   parse_lines ref_env mol3 init_state [''$freeze''] = Inr (init_state\<lparr>mode := Some ''freeze''\<rparr>) \<and>
   \<not> in_options (init_state\<lparr>mode := Some ''freeze''\<rparr>) \<and>
   str_in ''$options'' ''distance 1 2 # $options'' \<and> \<not> str_in ''$end'' ''distance 1 2 # $options'' \<and>
   list_all (\<lambda>x. \<not> str_in ''$end'' x) [''distance 1''] \<and> str_in ''$end'' ''# $end'' \<and>
   parse_constraints ref_env mol3 sample5 = Inr ([AtomPrim CartesianX 0 1], [[None]]) \<and>
   in_options (init_state\<lparr>in_options := True\<rparr>) \<and>
   parse_line ref_env mol3 (init_state\<lparr>mode := Some ''freeze''\<rparr>) ''$OPTIONS'' =
     Inr (init_state\<lparr>mode := Some ''options''\<rparr>) \<and>
   parse_line ref_env mol3 (init_state\<lparr>in_options := True\<rparr>) ''$END'' =
     Inr (init_state\<lparr>in_options := True\<rparr>)"
proof -
  let ?st = "init_state\<lparr>mode := Some ''freeze''\<rparr>"
  have a: "split_sep (CHR 0x0A) sample5 =
     [''$freeze''] @ ''distance 1 2 # $options'' # [''distance 1''] @ ''# $end'' # [''x 1'']"
    by (simp add: sample5_def)
  have b: "parse_lines ref_env mol3 init_state [''$freeze''] = Inr ?st"
    by (simp add: init_state_def parse_line_def clean_def strip_def is_space_def lower_def
          lower_char_def lower_table_def)
  have c: "\<not> in_options ?st" by (simp add: init_state_def)
  have d: "str_in ''$options'' ''distance 1 2 # $options'' \<and> \<not> str_in ''$end'' ''distance 1 2 # $options'' \<and>
   list_all (\<lambda>x. \<not> str_in ''$end'' x) [''distance 1''] \<and> str_in ''$end'' ''# $end''"
    by simp
  have p: "bindE (parse_lines ref_env mol3 ?st [''x 1'']) finish = Inr ([AtomPrim CartesianX 0 1], [[None]])"
    by (simp add: finish_def itertools_product_def eval_simps)
  have i: "in_options (init_state\<lparr>in_options := True\<rparr>)" by simp
  note u = options_markers[of sample5 "[''$freeze'']" "''distance 1 2 # $options''" "[''distance 1'']"
      "''# $end''" "[''x 1'']" ref_env mol3]
  from u[of ?st] a b c d p
  have e: "parse_constraints ref_env mol3 sample5 = Inr ([AtomPrim CartesianX 0 1], [[None]])"
    by simp
  from u[of ?st] c
  have f: "parse_line ref_env mol3 ?st ''$OPTIONS'' = Inr (init_state\<lparr>mode := Some ''options''\<rparr>)"
    by simp
  from u[of "init_state\<lparr>in_options := True\<rparr>"] i
  have g: "parse_line ref_env mol3 (init_state\<lparr>in_options := True\<rparr>) ''$END'' =
     Inr (init_state\<lparr>in_options := True\<rparr>)"
    by blast
  from a b c d e f g i show ?thesis by blast
qed

section \<open>Distance, angle and dihedral declarations\<close>


lemma atom_tokens:
  "length xs = n \<Longrightarrow> take n (drop 1 (k # xs @ rest)) = xs"
  by simp












lemma bonded_not_axis:
  "key \<in> set [''distance'', ''angle'', ''dihedral''] \<Longrightarrow> key \<notin> set AtomKeys \<and> key \<notin> set TransKeys"
  by (auto simp: AtomKeys_def TransKeys_def)






section \<open>Atom indices\<close>

















section \<open>The grid of values\<close>

lemma product_fold:
  "foldl (\<lambda>result pool. concat (map (\<lambda>x. map (\<lambda>y. x @ [y]) pool) result)) acc pools =
   concat (map (\<lambda>x. map ((@) x) (product_lists pools)) acc)"
proof (induction pools arbitrary: acc)
  case Nil
  show ?case by (induction acc) simp_all
next
  case (Cons p ps)
  have "concat (map (\<lambda>x. map ((@) x) (product_lists ps)) (concat (map (\<lambda>x. map (\<lambda>y. x @ [y]) p) acc))) =
        concat (map (\<lambda>x. map ((@) x) (product_lists (p # ps))) acc)"
  proof (induction acc)
    case Nil
    show ?case by simp
  next
    case (Cons a acc)
    have "concat (map (\<lambda>x. map ((@) x) (product_lists ps)) (map (\<lambda>y. a @ [y]) p)) =
          map ((@) a) (concat (map (\<lambda>x. map ((#) x) (product_lists ps)) p))"
      by (induction p) (simp_all add: comp_def)
    with Cons show ?case by simp
  qed
  with Cons.IH[of "concat (map (\<lambda>x. map (\<lambda>y. x @ [y]) p) acc)"] show ?case by simp
qed

lemma itertools_product_eq: "itertools_product pools = product_lists pools"
proof -
  have "map ((@) []) (product_lists pools) = product_lists pools"
    by (induction "product_lists pools") (simp_all add: map_idI)
  then show ?thesis by (simp add: itertools_product_def product_fold)
qed

lemma length_product_lists: "length (product_lists xss) = prod_list (map length xss)"
proof (induction xss)
  case Nil
  show ?case by simp
next
  case (Cons xs xss)
  have "length (concat (map (\<lambda>x. map ((#) x) (product_lists xss)) xs)) =
        length xs * length (product_lists xss)"
    by (induction xs) simp_all
  with Cons show ?case by simp
qed

lemma nth_concat_blocks:
  assumes "list_all (\<lambda>xs. length xs = n) xss" "i < length xss" "j < n"
  shows "concat xss ! (i * n + j) = xss ! i ! j"
  using assms
proof (induction xss arbitrary: i)
  case Nil
  then show ?case by simp
next
  case (Cons xs xss)
  show ?case
  proof (cases i)
    case 0
    with Cons.prems show ?thesis by (simp add: nth_append)
  next
    case (Suc i')
    with Cons.prems have "concat xss ! (i' * n + j) = xss ! i' ! j"
      by (intro Cons.IH) simp_all
    with Suc Cons.prems show ?thesis by (simp add: nth_append)
  qed
qed

lemma product_lists_two:
  assumes "i < length A" "j < length B"
  shows "product_lists [A, B] ! (i * length B + j) = [A ! i, B ! j]"
proof -
  have e: "product_lists [A, B] = concat (map (\<lambda>x. map (\<lambda>y. [x, y]) B) A)"
    by (simp add: comp_def)
  have "concat (map (\<lambda>x. map (\<lambda>y. [x, y]) B) A) ! (i * length B + j) =
        map (\<lambda>x. map (\<lambda>y. [x, y]) B) A ! i ! j"
    using assms by (intro nth_concat_blocks) (simp_all add: list_all_iff)
  with assms e show ?thesis by simp
qed

lemma row_length:
  assumes "list_all2 (\<lambda>x ys. x \<in> set ys) row vs" "aligned os vs"
  shows "length (concat row) = length (concat os)"
  using assms unfolding aligned_def
proof (induction row vs arbitrary: os rule: list_all2_induct)
  case Nil
  then show ?case by simp
next
  case (Cons x row ys vs)
  from Cons.prems obtain g os' where o: "os = g # os'"
      "list_all (\<lambda>step. length step = length g) ys"
      "list_all2 (\<lambda>g v. list_all (\<lambda>step. length step = length g) v) os' vs"
    by (cases os) auto
  from o(2) Cons.hyps(1) have "length x = length g" by (simp add: list_all_iff)
  with Cons.IH[OF o(3)] o(1) show ?case by simp
qed

lemma product_rows_length:
  assumes "aligned os vs"
  shows "list_all (\<lambda>row. length row = length (concat os)) (map concat (product_lists vs))"
proof -
  have "length (concat row) = length (concat os)" if "row \<in> set (product_lists vs)" for row
    using that assms by (intro row_length[of row vs os]) (simp_all add: product_lists_set)
  then show ?thesis by (simp add: list_all_iff)
qed

lemma mapE_list_all:
  assumes "mapE f xs = Inr ys" "\<And>x y. x \<in> set xs \<Longrightarrow> f x = Inr y \<Longrightarrow> P y"
  shows "list_all P ys"
  using assms
proof (induction xs arbitrary: ys)
  case Nil
  then show ?case by simp
next
  case (Cons x xs)
  from Cons.prems(1) obtain y ys' where y: "f x = Inr y" "mapE f xs = Inr ys'" "ys = y # ys'"
    by (auto split: sum.splits)
  have "list_all P ys'"
  proof (rule Cons.IH[OF y(2)])
    fix x' y' assume "x' \<in> set xs" "f x' = Inr y'"
    then show "P y'" using Cons.prems(2)[of x' y'] by simp
  qed
  moreover from Cons.prems(2)[of x y] y(1) have "P y" by simp
  ultimately show ?case using y(3) by simp
qed

lemma mapE_const_length:
  assumes "mapE (\<lambda>a. c) xs = Inr ys"
  shows "length ys = length xs"
  using assms by (rule mapE_Inr_length)

lemma aligned_uniform:
  assumes "list_all (\<lambda>g. length g = n) os"
      and "list_all (\<lambda>v. list_all (\<lambda>step. length step = n) v) vs"
      and "length os = length vs"
  shows "aligned os vs"
  using assms by (auto simp: aligned_def list_all2_conv_all_nth list_all_length)

lemma groups_ok_uniform:
  assumes "list_all (\<lambda>g. length g = n) os"
      and "list_all (\<lambda>v. list_all (\<lambda>step. length step = n) v) vs"
      and "length vs = length os"
  shows "groups_ok os vs"
  using aligned_uniform[OF assms(1,2)] assms(3) by (simp add: groups_ok_def)

lemma groups_ok_empty: "groups_ok os []"
  by (cases os) (simp_all add: groups_ok_def aligned_def)

lemma one_dimensional_scan_row_length:
  assumes "one_dimensional_scan init final steps = Inr vs"
  shows "list_all (\<lambda>v. length v = length init) vs"
proof (cases "init = []")
  case True
  with assms show ?thesis
    by (auto simp: one_dimensional_scan_def np_transpose_def split: if_splits)
next
  case False
  from assms have l: "length init = length final"
    by (auto simp: one_dimensional_scan_def split: if_splits)
  show ?thesis
  proof (cases "0 \<le> steps")
    case True
    from one_dimensional_scan_rows[OF l False True] assms show ?thesis
      by (auto simp: list_all_iff)
  next
    case False
    then have "linspace (init ! 0) (final ! 0) steps = Inl (ValueError ''Number of samples must be non-negative'')"
      by (simp add: linspace_def)
    moreover from \<open>init \<noteq> []\<close> have "[0..<length init] = 0 # [1..<length init]"
      by (simp add: upt_conv_Cons)
    ultimately have "mapE (\<lambda>j. linspace (init ! j) (final ! j) steps) [0..<length init] =
        Inl (ValueError ''Number of samples must be non-negative'')"
      by simp
    with assms l show ?thesis by (simp add: one_dimensional_scan_def)
  qed
qed

lemma lengths_length: "lengths ev toks = Inr xs \<Longrightarrow> length xs = length toks"
  unfolding lengths_def by (rule mapE_Inr_length)

lemma atom_objs_uniform: "list_all (\<lambda>g. length g = length atoms) (atom_objs classes atoms)"
  by (simp add: atom_objs_def list_all_iff)

lemma atom_vals_groups:
  assumes "atom_vals ev m classes s atoms = Inr vs"
  shows "groups_ok (atom_objs classes atoms) vs"
proof -
  let ?n = "length atoms"
  let ?k = "length classes"
  consider (f) "m = ''freeze''" | (s) "m = ''set''" | (c) "m = ''scan''"
    | (o) "m \<noteq> ''freeze''" "m \<noteq> ''set''" "m \<noteq> ''scan''" by blast
  then show ?thesis
  proof cases
    case f
    with assms have "vs = map (\<lambda>cls. [map (\<lambda>a. None) atoms]) classes"
      by (simp add: atom_vals_def)
    then show ?thesis
      by (intro groups_ok_uniform[of ?n]) (simp_all add: atom_objs_uniform list_all_iff atom_objs_def)
  next
    case s
    with assms obtain x1 where
      v: "mapE (\<lambda>icls. bindE (mapE (\<lambda>a. idx x1 icls) atoms) (\<lambda>row. Inr [map Some row])) [0..<?k] = Inr vs"
      by (auto simp: atom_vals_def Let_def bindE_Inr_iff)
    have "list_all (\<lambda>v. list_all (\<lambda>step. length step = ?n) v) vs"
      using v by (rule mapE_list_all) (auto simp: bindE_Inr_iff dest: mapE_Inr_length)
    moreover from mapE_Inr_length[OF v] have "length vs = length (atom_objs classes atoms)"
      by (simp add: atom_objs_def)
    ultimately show ?thesis
      by (intro groups_ok_uniform[of ?n]) (simp_all add: atom_objs_uniform)
  next
    case c
    with assms obtain valscan where
      v: "mapE (\<lambda>icls. mapE (\<lambda>v. bindE (mapE (\<lambda>a. idx v icls) atoms) (\<lambda>row. Inr (map Some row)))
                    valscan) [0..<?k] = Inr vs"
      by (auto simp: atom_vals_def Let_def bindE_Inr_iff)
    have "list_all (\<lambda>v. list_all (\<lambda>step. length step = ?n) v) vs"
      using v
    proof (rule mapE_list_all)
      fix icls y
      assume "mapE (\<lambda>v. bindE (mapE (\<lambda>a. idx v icls) atoms) (\<lambda>row. Inr (map Some row))) valscan = Inr y"
      then show "list_all (\<lambda>step. length step = ?n) y"
        by (rule mapE_list_all) (auto simp: bindE_Inr_iff dest: mapE_Inr_length)
    qed
    moreover from mapE_Inr_length[OF v] have "length vs = length (atom_objs classes atoms)"
      by (simp add: atom_objs_def)
    ultimately show ?thesis
      by (intro groups_ok_uniform[of ?n]) (simp_all add: atom_objs_uniform)
  next
    case o
    with assms have "vs = []" by (simp add: atom_vals_def)
    then show ?thesis by (simp add: groups_ok_empty)
  qed
qed

lemma trans_objs_length: "trans_objs classes atoms = Inr grp \<Longrightarrow> length grp = length classes"
  by (auto simp: trans_objs_def split: if_splits dest: mapE_Inr_length)

lemma groups_ok_single:
  "list_all (\<lambda>step. length step = length g) v \<Longrightarrow> groups_ok [g] [v]"
  by (simp add: groups_ok_def aligned_def)

lemma trans_vals_groups:
  assumes "trans_vals ev m classes s = Inr vs"
      and "m = ''set'' \<or> m = ''scan'' \<Longrightarrow> length classes + 2 \<le> length s"
      and "length grp = length classes"
  shows "groups_ok [grp] vs"
proof -
  let ?k = "length classes"
  consider (f) "m = ''freeze''" | (s) "m = ''set''" | (c) "m = ''scan''"
    | (o) "m \<noteq> ''freeze''" "m \<noteq> ''set''" "m \<noteq> ''scan''" by blast
  then show ?thesis
  proof cases
    case f
    with assms(1) have "vs = [[map (\<lambda>cls. None) classes]]" by (simp add: trans_vals_def)
    with assms(3) show ?thesis by (simp add: groups_ok_single)
  next
    case s
    with assms(1) obtain x1 where x: "lengths ev (take ?k (drop 2 s)) = Inr x1" "vs = [[map Some x1]]"
      by (auto simp: trans_vals_def Let_def bindE_Inr_iff)
    from lengths_length[OF x(1)] assms(2) s have "length x1 = ?k" by simp
    with x(2) assms(3) show ?thesis by (simp add: groups_ok_single)
  next
    case c
    with assms(1) obtain x1 x2 nstep valscan where
      x: "lengths ev (take ?k (drop 2 s)) = Inr x1"
         "one_dimensional_scan x1 x2 nstep = Inr valscan" "vs = [map (map Some) valscan]"
      by (auto simp: trans_vals_def Let_def bindE_Inr_iff)
    from lengths_length[OF x(1)] assms(2) c have "length x1 = ?k" by simp
    with one_dimensional_scan_row_length[OF x(2)] assms(3)
    have "list_all (\<lambda>step. length step = length grp) (map (map Some) valscan)"
      by (simp add: list_all_iff)
    with x(3) show ?thesis by (simp add: groups_ok_single)
  next
    case o
    with assms(1) have "vs = []" by (simp add: trans_vals_def)
    then show ?thesis by (simp add: groups_ok_empty)
  qed
qed

lemma bonded_vals_groups:
  assumes "bonded_vals ev m key n s = Inr vs"
  shows "groups_ok [[b]] vs"
proof -
  consider (f) "m = ''freeze''" | (s) "m = ''set''" | (c) "m = ''scan''"
    | (o) "m \<noteq> ''freeze''" "m \<noteq> ''set''" "m \<noteq> ''scan''" by blast
  then show ?thesis
  proof cases
    case f
    with assms have "vs = [[[None]]]" by (simp add: bonded_vals_def)
    then show ?thesis by (simp add: groups_ok_single)
  next
    case s
    with assms obtain x1 where "vs = [[[Some x1]]]"
      by (auto simp: bonded_vals_def bindE_Inr_iff)
    then show ?thesis by (simp add: groups_ok_single)
  next
    case c
    with assms obtain ls where "vs = [map (\<lambda>i. [Some i]) ls]"
      by (auto simp: bonded_vals_def bindE_Inr_iff)
    then show ?thesis by (simp add: groups_ok_single list_all_iff)
  next
    case o
    with assms have "vs = []" by (simp add: bonded_vals_def)
    then show ?thesis by (simp add: groups_ok_empty)
  qed
qed

lemma rot_triple_length: "length (rot_triple ev u rg theta) = 3"
  by (simp add: rot_triple_def Let_def)

lemma rotation_vals_groups:
  assumes "rotation_vals ev m s rg = Inr vs" "length grp = 3"
  shows "groups_ok [grp] vs"
proof (cases "m = ''set''")
  case True
  with assms(1) obtain u theta where "vs = [[map Some (rot_triple ev u rg theta)]]"
    by (auto simp: rotation_vals_def Let_def bindE_Inr_iff)
  with assms(2) show ?thesis by (simp add: groups_ok_single rot_triple_length)
next
  case False
  with assms(1) obtain u thetas where "vs = [map (\<lambda>theta. map Some (rot_triple ev u rg theta)) thetas]"
    by (auto simp: rotation_vals_def Let_def bindE_Inr_iff)
  with assms(2) show ?thesis by (simp add: groups_ok_single rot_triple_length list_all_iff)
qed

lemma rotation_freeze_groups:
  "groups_ok (map (\<lambda>cls. [f cls]) classes) (map (\<lambda>cls. [[None]]) classes)"
  by (intro groups_ok_uniform[of 1]) (simp_all add: list_all_iff)

lemma groups_ok_append:
  assumes "groups_ok os vs" "groups_ok og vg"
  shows "groups_ok (os @ og) (vs @ vg)"
proof -
  from assms have l: "length vs \<le> length os" "length vg \<le> length og"
    by (simp_all add: groups_ok_def)
  have "aligned (os @ og) (vs @ vg)" if e: "length (vs @ vg) = length (os @ og)"
  proof -
    from e l have "length vs = length os" "length vg = length og" by simp_all
    with assms show ?thesis by (simp add: groups_ok_def aligned_def list_all2_appendI)
  qed
  with l show ?thesis by (simp add: groups_ok_def)
qed

lemma trans_not_atom: "key \<in> set TransKeys \<Longrightarrow> key \<notin> set AtomKeys"
  by (auto simp: AtomKeys_def TransKeys_def)

lemma rotation_branch_groups:
  assumes "rotation_branch ev mol st m classes s = Inr st'" "length classes = 3"
  shows "\<exists>og vg. objs st' = objs st @ og \<and> vals st' = vals st @ vg \<and> groups_ok og vg"
proof -
  from assms(1) obtain atoms rg where
    b: "(if m = ''freeze'' then
         Inr (st\<lparr>objs := objs st @ map (\<lambda>cls. [RotPrim cls atoms (coords ev mol) rg]) classes,
                 vals := vals st @ map (\<lambda>cls. [[None]]) classes\<rparr>)
       else if m \<in> set [''set'', ''scan''] then
         bindE (rotation_vals ev m s rg) (\<lambda>vs.
           Inr (st\<lparr>objs := objs st @ [map (\<lambda>cls. RotPrim cls atoms (coords ev mol) rg) classes],
                   vals := vals st @ vs\<rparr>))
       else Inr st) = Inr st'"
    unfolding rotation_branch_def bindE_Inr_iff by blast
  consider (f) "m = ''freeze''" | (s) "m \<noteq> ''freeze''" "m \<in> set [''set'', ''scan'']"
    | (o) "m \<noteq> ''freeze''" "m \<notin> set [''set'', ''scan'']" by blast
  then show ?thesis
  proof cases
    case f
    with b have "objs st' = objs st @ map (\<lambda>cls. [RotPrim cls atoms (coords ev mol) rg]) classes"
        "vals st' = vals st @ map (\<lambda>cls. [[None]]) classes"
      by auto
    with rotation_freeze_groups[of "\<lambda>cls. RotPrim cls atoms (coords ev mol) rg" classes]
    show ?thesis by blast
  next
    case s
    with b obtain vs where v: "rotation_vals ev m s rg = Inr vs"
        "st' = st\<lparr>objs := objs st @ [map (\<lambda>cls. RotPrim cls atoms (coords ev mol) rg) classes],
                   vals := vals st @ vs\<rparr>"
      by (auto simp: bindE_Inr_iff)
    from rotation_vals_groups[OF v(1), of "map (\<lambda>cls. RotPrim cls atoms (coords ev mol) rg) classes"]
      assms(2)
    have "groups_ok [map (\<lambda>cls. RotPrim cls atoms (coords ev mol) rg) classes] vs" by simp
    with v(2) show ?thesis by (intro exI[of _ "[map (\<lambda>cls. RotPrim cls atoms (coords ev mol) rg) classes]"] exI[of _ vs]) simp
  next
    case o
    with b have "st' = st" by auto
    then show ?thesis by (intro exI[of _ "[]"]) (simp add: groups_ok_empty)
  qed
qed

lemma bonded_branch_groups:
  assumes "bonded_branch ev mol st m key classes n s = Inr st'"
  shows "\<exists>og vg. objs st' = objs st @ og \<and> vals st' = vals st @ vg \<and> groups_ok og vg"
proof -
  from assms obtain atoms vs where
    v: "bonded_vals ev m key n s = Inr vs"
       "st' = st\<lparr>objs := objs st @ [[Bonded (classes ! 0) atoms]], vals := vals st @ vs\<rparr>"
    by (auto simp: bonded_branch_def bindE_Inr_iff split: if_splits)
  from bonded_vals_groups[OF v(1), of "Bonded (classes ! 0) atoms"] v(2)
  show ?thesis by (intro exI[of _ "[[Bonded (classes ! 0) atoms]]"] exI[of _ vs]) simp
qed

lemma idx_first: "idx (x # xs) 0 = Inr x"
  by (simp add: idx_def)

lemma parse_decl_dispatch:
  assumes "split_ws line = key0 # args"
      and "ClassDict (normalize_key key0) = Some (classes, n)"
      and "assign_ntok m (normalize_key key0) classes n (ntok st) = Some nt"
      and "length args = nt"
  shows "parse_decl ev mol st m line =
     (if normalize_key key0 \<in> set AtomKeys \<or> normalize_key key0 \<in> set TransKeys then
        bindE (idx (key0 # args) 1) (\<lambda>t1.
        bindE (resolve_atoms ev mol t1) (\<lambda>atoms0.
        bindE (check_atoms mol atoms0) (\<lambda>atoms.
          if normalize_key key0 \<in> set AtomKeys then
            bindE (atom_vals ev m classes (key0 # args) atoms) (\<lambda>vs.
              Inr (st\<lparr>ntok := Some nt, objs := objs st @ atom_objs classes atoms,
                      vals := vals st @ vs\<rparr>))
          else
            bindE (trans_objs classes atoms) (\<lambda>grp.
            bindE (trans_vals ev m classes (key0 # args)) (\<lambda>vs.
              Inr (st\<lparr>ntok := Some nt, objs := objs st @ [grp], vals := vals st @ vs\<rparr>))))))
      else if normalize_key key0 \<in> set [''distance'', ''angle'', ''dihedral''] then
        bonded_branch ev mol (st\<lparr>ntok := Some nt\<rparr>) m (normalize_key key0) classes n (key0 # args)
      else if normalize_key key0 \<in> set [''rotation''] then
        rotation_branch ev mol (st\<lparr>ntok := Some nt\<rparr>) m classes (key0 # args)
      else Inr (st\<lparr>ntok := Some nt\<rparr>))"
  unfolding parse_decl_def Let_def assms(1)
  by (simp add: idx_first assms(2,3,4) cong: if_cong)

lemma parse_decl_groups:
  assumes "parse_decl ev mol st m line = Inr st'"
  shows "\<exists>og vg. objs st' = objs st @ og \<and> vals st' = vals st @ vg \<and> groups_ok og vg"
proof -
  from assms obtain key0 args where s: "split_ws line = key0 # args"
    by (cases "split_ws line") (auto simp: parse_decl_def idx_def Let_def)
  let ?key = "normalize_key key0"
  from assms s obtain classes n where cd: "ClassDict ?key = Some (classes, n)"
    by (cases "ClassDict ?key") (auto simp: parse_decl_def idx_def Let_def)
  from assms s cd obtain nt where nt: "assign_ntok m ?key classes n (ntok st) = Some nt"
    by (cases "assign_ntok m ?key classes n (ntok st)") (auto simp: parse_decl_def idx_def Let_def)
  have len: "length args = nt"
  proof (rule ccontr)
    assume "length args \<noteq> nt"
    from parse_decl_token_count[OF s cd nt this, of ev mol] assms show False by simp
  qed
  note d = assms[unfolded parse_decl_dispatch[OF s cd nt len, of ev mol]]
  let ?st1 = "st\<lparr>ntok := Some nt\<rparr>"
  from ClassDict_cases[OF cd]
  consider (atom) "?key \<in> set AtomKeys"
    | (trans) "?key \<in> set TransKeys" "n = 1"
    | (bonded) "?key \<in> set [''distance'', ''angle'', ''dihedral'']"
    | (rot) "?key = ''rotation''" "length classes = 3"
    by auto
  then show ?thesis
  proof cases
    case atom
    with d obtain atoms vs where
      v: "atom_vals ev m classes (key0 # args) atoms = Inr vs"
         "st' = st\<lparr>ntok := Some nt, objs := objs st @ atom_objs classes atoms, vals := vals st @ vs\<rparr>"
      by (auto simp: bindE_Inr_iff)
    from atom_vals_groups[OF v(1)] v(2) show ?thesis
      by (intro exI[of _ "atom_objs classes atoms"] exI[of _ vs]) simp
  next
    case trans
    from trans(1) have na: "?key \<notin> set AtomKeys" by (rule trans_not_atom)
    from trans(1) have nr: "?key \<noteq> ''rotation''" by (auto simp: TransKeys_def)
    from d trans(1) na obtain atoms grp vs where
      v: "trans_objs classes atoms = Inr grp" "trans_vals ev m classes (key0 # args) = Inr vs"
         "st' = st\<lparr>ntok := Some nt, objs := objs st @ [grp], vals := vals st @ vs\<rparr>"
      by (auto simp: bindE_Inr_iff)
    have "length classes + 2 \<le> length (key0 # args)" if "m = ''set'' \<or> m = ''scan''"
      using that nt len nr trans(2) by (auto simp: assign_ntok_def)
    from trans_vals_groups[OF v(2) this trans_objs_length[OF v(1)]] v(3) show ?thesis
      by (intro exI[of _ "[grp]"] exI[of _ vs]) simp
  next
    case bonded
    from bonded_not_axis[OF bonded] d bonded
    have "bonded_branch ev mol ?st1 m ?key classes n (key0 # args) = Inr st'" by simp
    from bonded_branch_groups[OF this] show ?thesis by simp
  next
    case rot
    have "''rotation'' \<notin> set AtomKeys" "''rotation'' \<notin> set TransKeys"
      by (simp_all add: AtomKeys_def TransKeys_def)
    with d rot(1)
    have "rotation_branch ev mol ?st1 m classes (key0 # args) = Inr st'" by simp
    from rotation_branch_groups[OF this rot(2)] show ?thesis by simp
  qed
qed

lemma parse_line_groups:
  assumes "parse_line ev mol st l = Inr st'" "groups_ok (objs st) (vals st)"
  shows "groups_ok (objs st') (vals st')"
proof (cases "in_options st \<or> str_in ''$options'' l")
  case True
  from parse_line_skipped[OF True, of ev mol] assms show ?thesis by auto
next
  case False
  then have n: "\<not> in_options st" "\<not> str_in ''$options'' l" by simp_all
  show ?thesis
  proof (cases "clean l = []")
    case True
    from parse_line_blank[OF n True, of ev mol] assms show ?thesis by simp
  next
    case ne: False
    show ?thesis
    proof (cases "startswith (clean l) ''$''")
      case True
      from parse_line_marker[OF n True, of ev mol] assms show ?thesis by auto
    next
      case False
      from parse_line_declaration[OF n ne False, of ev mol] assms(1)
      obtain m where "parse_decl ev mol st m (clean l) = Inr st'"
        by (auto split: option.splits)
      from parse_decl_groups[OF this] obtain og vg where
        "objs st' = objs st @ og" "vals st' = vals st @ vg" "groups_ok og vg" by blast
      with groups_ok_append[OF assms(2), of og vg] show ?thesis by simp
    qed
  qed
qed

lemma parse_lines_groups:
  "parse_lines ev mol st ls = Inr st' \<Longrightarrow> groups_ok (objs st) (vals st) \<Longrightarrow>
     groups_ok (objs st') (vals st')"
proof (induction ls arbitrary: st)
  case Nil
  then show ?case by simp
next
  case (Cons l ls)
  from Cons.prems(1) obtain st1 where s: "parse_line ev mol st l = Inr st1"
      "parse_lines ev mol st1 ls = Inr st'"
    by (auto split: sum.splits)
  from Cons.IH[OF s(2) parse_line_groups[OF s(1) Cons.prems(2)]] show ?case .
qed

lemma compile_lines_groups:
  assumes "compile_lines ev mol cs = Inr st"
  shows "groups_ok (objs st) (vals st)"
proof -
  have "groups_ok (objs init_state) (vals init_state)"
    by (simp add: init_state_def groups_ok_def aligned_def)
  with assms show ?thesis unfolding compile_lines_def by (rule parse_lines_groups)
qed

end
